theory Spec2Isabelle
  imports Complex_Main "HOL-Library.Log_Nat" "HOL-Library.Word"
begin

section \<open>Python values used by backend/main.py\<close>

text \<open>
  The OCR backend is a single Python module, \<^verbatim>\<open>backend/main.py\<close>. Its functions are
  embedded here one by one, under their own names. Everything the module imports (OpenCV,
  pytesseract, numpy, base64, the web framework) is outside the module and appears as a field
  of the record \<open>env\<close> below; the module's own control flow, arithmetic, filtering and
  exception handling are translated literally. \<^verbatim>\<open>print\<close> calls are dropped.
\<close>

subsection \<open>Strings\<close>

text \<open>
  A Python \<^verbatim>\<open>str\<close> is a sequence of code points and \<^verbatim>\<open>len\<close> counts code points, so a
  string is a list of naturals. \<open>ustr\<close> embeds an ASCII literal.
\<close>

type_synonym pystr = "nat list"

type_synonym byte = "8 word"

definition ustr :: "string \<Rightarrow> pystr" where
  "ustr s = map of_char s"

text \<open>
  \<^verbatim>\<open>str.strip()\<close> without argument removes leading and trailing white space, which for
  \<^verbatim>\<open>str\<close> is the set of code points accepted by \<^verbatim>\<open>str.isspace\<close>.
\<close>

definition py_isspace :: "nat \<Rightarrow> bool" where
  "py_isspace c \<longleftrightarrow>
     (9 \<le> c \<and> c \<le> 13) \<or> (28 \<le> c \<and> c \<le> 32) \<or> c = 133 \<or> c = 160 \<or> c = 5760 \<or>
     (8192 \<le> c \<and> c \<le> 8202) \<or> c = 8232 \<or> c = 8233 \<or> c = 8239 \<or> c = 8287 \<or> c = 12288"

definition py_strip :: "pystr \<Rightarrow> pystr" where
  "py_strip s = rev (dropWhile py_isspace (rev (dropWhile py_isspace s)))"

text \<open>Decimal digits of a natural number, as \<^verbatim>\<open>str(n)\<close> prints them.\<close>

fun dec :: "nat \<Rightarrow> pystr" where
  "dec n = (if n < 10 then [48 + n] else dec (n div 10) @ [48 + n mod 10])"

declare dec.simps [simp del]

subsection \<open>Exceptions\<close>

text \<open>
  Every exception that occurs in the module is an instance of \<^verbatim>\<open>Exception\<close>, so each
  \<^verbatim>\<open>except Exception\<close> clause catches every value of this type. \<open>HTTPException\<close>
  is the framework's exception (a subclass of \<^verbatim>\<open>Exception\<close>) carrying a status code and
  a detail; \<open>EngineError\<close> stands for whatever the OCR engine wrapper raises.
\<close>

datatype exn =
    HTTPException nat pystr
  | ZeroDivisionError
  | IndexError
  | OverflowError
  | ValueError pystr
  | EngineError pystr

definition exn_bind :: "exn + 'a \<Rightarrow> ('a \<Rightarrow> exn + 'b) \<Rightarrow> exn + 'b" where
  "exn_bind m f = (case m of Inl e \<Rightarrow> Inl e | Inr v \<Rightarrow> f v)"

text \<open>\<^verbatim>\<open>xs[i]\<close> for an index produced by \<^verbatim>\<open>range\<close> (never negative).\<close>

definition py_index :: "'a list \<Rightarrow> nat \<Rightarrow> exn + 'a" where
  "py_index xs i = (if i < length xs then Inr (xs ! i) else Inl IndexError)"

text \<open>
  \<^verbatim>\<open>for i in ...: body\<close> over an accumulator: the first iteration that raises ends the
  loop with that exception.
\<close>

fun for_loop :: "('i \<Rightarrow> 's \<Rightarrow> exn + 's) \<Rightarrow> 'i list \<Rightarrow> 's \<Rightarrow> exn + 's" where
  "for_loop body [] s = Inr s"
| "for_loop body (i # is) s =
     (case body i s of Inl e \<Rightarrow> Inl e | Inr s' \<Rightarrow> for_loop body is s')"

subsection \<open>Floating point\<close>

text \<open>
  A Python \<^verbatim>\<open>float\<close> is an IEEE 754 binary64 number. A finite float is represented by the
  rational it denotes, and every arithmetic operation is the exact operation followed by
  \<open>fl\<close>, rounding to 53 significant bits, ties to even. The exponent range is not
  bounded in \<open>fl\<close>: the only place of the module where a value can leave it is the
  conversion \<^verbatim>\<open>float(conf)\<close> of an arbitrary integer, which \<open>py_float\<close> covers.
  Image dimensions are array shapes, below \<open>2 ^ 63\<close>.
\<close>

definition round_half_even :: "rat \<Rightarrow> int" where
  "round_half_even x =
     (let n = \<lfloor>x\<rfloor>; d = x - of_int n
      in if d < 1 / 2 then n else if 1 / 2 < d then n + 1 else if even n then n else n + 1)"

text \<open>For \<open>x > 0\<close>, the integer \<open>e\<close> with \<open>2 ^ e \<le> x < 2 ^ (e + 1)\<close>.\<close>

definition float_exponent :: "rat \<Rightarrow> int" where
  "float_exponent x =
     (case quotient_of x of (p, q) \<Rightarrow>
        let e = bitlen p - bitlen q in if power_int 2 e \<le> x then e else e - 1)"

definition fl :: "rat \<Rightarrow> rat" where
  "fl x =
     (if x = 0 then 0
      else let a = \<bar>x\<bar>; u = power_int 2 (float_exponent a - 52)
           in sgn x * of_int (round_half_even (a / u)) * u)"

text \<open>\<^verbatim>\<open>int(x)\<close> of a float truncates toward zero.\<close>

definition py_trunc :: "rat \<Rightarrow> int" where
  "py_trunc x = (if 0 \<le> x then \<lfloor>x\<rfloor> else \<lceil>x\<rceil>)"

text \<open>\<^verbatim>\<open>float(n)\<close> of an integer: correctly rounded, \<^verbatim>\<open>OverflowError\<close> beyond the range.\<close>

definition py_float :: "int \<Rightarrow> exn + rat" where
  "py_float n = (let r = fl (of_int n) in if \<bar>r\<bar> < 2 ^ 1024 then Inr r else Inl OverflowError)"

text \<open>
  \<^verbatim>\<open>f"{x:.0f}"\<close>: the float rounded to an integer, ties to even, printed in decimal with
  its sign.
\<close>

definition format_0f :: "rat \<Rightarrow> pystr" where
  "format_0f x = (if x < 0 then ustr ''-'' else []) @ dec (nat (round_half_even \<bar>x\<bar>))"

subsection \<open>Images\<close>

text \<open>
  An image is a numpy array: its shape and its pixels in row-major order. A colour pixel is
  a (blue, green, red) triple of bytes, a grey pixel one byte.
\<close>

record 'p image =
  im_height :: nat
  im_width :: nat
  im_data :: "'p list"

type_synonym color_image = "(byte \<times> byte \<times> byte) image"

type_synonym gray_image = "byte image"

type_synonym color = "nat \<times> nat \<times> nat"

definition shape :: "'p image \<Rightarrow> nat \<times> nat" where
  "shape im = (im_height im, im_width im)"

text \<open>\<^verbatim>\<open>np.sum(im == 0)\<close>: the number of black pixels.\<close>

definition count_zero :: "gray_image \<Rightarrow> nat" where
  "count_zero im = length (filter (\<lambda>p. p = 0) (im_data im))"

subsection \<open>The OCR engine's table and the module's dictionaries\<close>

text \<open>
  \<^verbatim>\<open>image_to_data(..., output_type=Output.DICT)\<close> returns one list per column. The module
  reads the numeric columns only through \<^verbatim>\<open>int(...)\<close>, so a numeric cell is represented by
  what \<^verbatim>\<open>int\<close> makes of it: \<open>Inr n\<close> when it yields \<open>n\<close>, \<open>Inl e\<close> when it
  raises \<open>e\<close> (as for the string \<^verbatim>\<open>'95.5'\<close>).
\<close>

type_synonym cell = "exn + int"

record ocr_data =
  d_text :: "pystr list"
  d_conf :: "cell list"
  d_left :: "cell list"
  d_top :: "cell list"
  d_width :: "cell list"
  d_height :: "cell list"

text \<open>The dictionary built for one word, with keys text, x, y, width, height, confidence.\<close>

record text_box =
  box_text :: pystr
  box_x :: int
  box_y :: int
  box_width :: int
  box_height :: int
  box_confidence :: rat

text \<open>
  A number in the JSON answer: \<^verbatim>\<open>avg_conf\<close> is the Python integer \<^verbatim>\<open>0\<close> or a numpy
  float.
\<close>

datatype pynum = PyInt int | NpFloat rat

text \<open>The \<^verbatim>\<open>data\<close> object of the JSON answer of \<^verbatim>\<open>/process-ocr\<close>.\<close>

record ocr_response =
  resp_success :: bool
  resp_text :: pystr
  resp_average_confidence :: pynum
  resp_rotation_angle :: int
  resp_text_boxes :: "text_box list"
  resp_processed_image :: pystr
  resp_total_boxes :: nat

subsection \<open>The libraries\<close>

text \<open>
  The functions the module calls in OpenCV (\<open>cv2_\<close>), pytesseract (\<open>tess_\<close>), numpy,
  base64 and the interpreter. Arguments that the module passes as constants are kept as
  arguments. The drawing functions of OpenCV change their first argument in place; here they
  return the changed image, and the caller stores it back (see \<open>draw_bounding_boxes\<close>).
  \<open>py_round\<close> is \<^verbatim>\<open>round(x, ndigits)\<close> on a numpy float and \<open>exn_str\<close> is \<^verbatim>\<open>str(e)\<close>.
  The library functions are total: an exception raised inside OpenCV is not part of the
  model, an exception raised by the OCR engine is (\<open>Inl\<close>).
\<close>

record env =
  cv2_imdecode :: "byte list \<Rightarrow> color_image option"
  cv2_cvtColor :: "color_image \<Rightarrow> gray_image"
  cv2_resize :: "gray_image \<Rightarrow> int \<times> int \<Rightarrow> gray_image"
  cv2_fastNlMeansDenoising :: "gray_image \<Rightarrow> nat \<Rightarrow> nat \<Rightarrow> nat \<Rightarrow> gray_image"
  cv2_clahe_apply :: "rat \<Rightarrow> nat \<times> nat \<Rightarrow> gray_image \<Rightarrow> gray_image"
  cv2_adaptiveThreshold :: "gray_image \<Rightarrow> nat \<Rightarrow> nat \<Rightarrow> int \<Rightarrow> gray_image"
  cv2_GaussianBlur :: "gray_image \<Rightarrow> nat \<times> nat \<Rightarrow> nat \<Rightarrow> gray_image"
  cv2_threshold_otsu :: "gray_image \<Rightarrow> nat \<Rightarrow> nat \<Rightarrow> gray_image"
  cv2_rectangle :: "color_image \<Rightarrow> int \<times> int \<Rightarrow> int \<times> int \<Rightarrow> color \<Rightarrow> nat \<Rightarrow> color_image"
  cv2_putText ::
    "color_image \<Rightarrow> pystr \<Rightarrow> int \<times> int \<Rightarrow> nat \<Rightarrow> rat \<Rightarrow> color \<Rightarrow> nat \<Rightarrow> color_image"
  cv2_imencode :: "pystr \<Rightarrow> color_image \<Rightarrow> byte list"
  tess_image_to_data :: "gray_image \<Rightarrow> pystr \<Rightarrow> pystr \<Rightarrow> exn + ocr_data"
  tess_image_to_string :: "gray_image \<Rightarrow> pystr \<Rightarrow> pystr \<Rightarrow> exn + pystr"
  np_mean :: "rat list \<Rightarrow> rat"
  py_round :: "rat \<Rightarrow> nat \<Rightarrow> rat"
  b64encode :: "byte list \<Rightarrow> pystr"
  exn_str :: "exn \<Rightarrow> pystr"

section \<open>The module's functions\<close>

subsection \<open>preprocess_image\<close>

text \<open>
  Lines 27 to 59. \<^verbatim>\<open>2000 / width\<close> is the true division of two integers (correctly
  rounded, \<^verbatim>\<open>ZeroDivisionError\<close> for width 0); \<^verbatim>\<open>width * scale\<close> converts the integer to
  a float and multiplies; \<^verbatim>\<open>int\<close> truncates. \<^verbatim>\<open>cv2.resize\<close> takes the size as
  (width, height).
\<close>

definition preprocess_image :: "env \<Rightarrow> color_image \<Rightarrow> exn + gray_image" where
  "preprocess_image L img =
     (let gray = cv2_cvtColor L img;
          height = im_height gray;
          width = im_width gray
      in exn_bind
           (if width < 2000 then
              if width = 0 then Inl ZeroDivisionError
              else
                let scale = fl (2000 / of_nat width);
                    new_width = py_trunc (fl (fl (of_nat width) * scale));
                    new_height = py_trunc (fl (fl (of_nat height) * scale))
                in Inr (cv2_resize L gray (new_width, new_height))
            else Inr gray)
           (\<lambda>gray.
              let denoised = cv2_fastNlMeansDenoising L gray 10 7 21;
                  contrast = cv2_clahe_apply L 2 (8, 8) denoised;
                  adaptive = cv2_adaptiveThreshold L contrast 255 11 2;
                  blur = cv2_GaussianBlur L contrast (5, 5) 0;
                  otsu = cv2_threshold_otsu L blur 0 255
              in Inr (if count_zero otsu > count_zero adaptive then otsu else adaptive)))"

subsection \<open>detect_text_regions\<close>

text \<open>
  Lines 61 to 91. \<open>detect_step\<close> is the body of the loop over \<^verbatim>\<open>range(n_boxes)\<close>, with
  \<^verbatim>\<open>boxes\<close> as the accumulator; the values of the dictionary literal are evaluated in the
  order they are written. \<^verbatim>\<open>preprocess_image\<close> is called before the \<^verbatim>\<open>try\<close>, so its
  exception leaves the function; everything after it is inside the \<^verbatim>\<open>try\<close>, whose handler
  returns the empty list.
\<close>

definition py_int_at :: "cell list \<Rightarrow> nat \<Rightarrow> exn + int" where
  "py_int_at cells i = exn_bind (py_index cells i) (\<lambda>c. c)"

definition detect_step :: "ocr_data \<Rightarrow> nat \<Rightarrow> text_box list \<Rightarrow> exn + text_box list" where
  "detect_step data i boxes =
     exn_bind (py_int_at (d_conf data) i) (\<lambda>conf.
       if conf > 30 then
         exn_bind (py_index (d_text data) i) (\<lambda>t.
           let text = py_strip t
           in if text \<noteq> [] \<and> length text > 0 then
                exn_bind (py_int_at (d_left data) i) (\<lambda>x.
                exn_bind (py_int_at (d_top data) i) (\<lambda>y.
                exn_bind (py_int_at (d_width data) i) (\<lambda>w.
                exn_bind (py_int_at (d_height data) i) (\<lambda>h.
                exn_bind (py_float conf) (\<lambda>c.
                  Inr (boxes @
                    [\<lparr>box_text = text, box_x = x, box_y = y, box_width = w, box_height = h,
                      box_confidence = c\<rparr>]))))))
              else Inr boxes)
       else Inr boxes)"

definition detect_text_regions :: "env \<Rightarrow> color_image \<Rightarrow> exn + text_box list" where
  "detect_text_regions L img =
     exn_bind (preprocess_image L img) (\<lambda>processed.
       case exn_bind (tess_image_to_data L processed (ustr ''--oem 3 --psm 3'') (ustr ''eng''))
              (\<lambda>data. for_loop (detect_step data) [0..<length (d_text data)] []) of
         Inl e \<Rightarrow> Inr []
       | Inr boxes \<Rightarrow> Inr boxes)"

subsection \<open>draw_bounding_boxes\<close>

text \<open>
  Lines 93 to 115. The function receives a reference to an array and draws in place, so it
  is modelled over a store of arrays: a list of images, an address being an index.
  \<^verbatim>\<open>image.copy()\<close> allocates a new array at the end of the store; \<^verbatim>\<open>cv2.rectangle\<close> and
  \<^verbatim>\<open>cv2.putText\<close> overwrite the array whose address they are given. The function returns
  the new store and the address of \<^verbatim>\<open>result_image\<close>.

  A colour is the tuple passed to OpenCV, which reads it in the channel order of the array
  it draws on: (blue, green, red), the order of the pixels above. \<open>box_color\<close> holds the
  three tuples of lines 102, 104 and 106 as the source writes them. \<open>green\<close>,
  \<open>orange\<close> and \<open>red\<close> are these colours in that order: orange is red 255, green 165,
  blue 0.
\<close>

type_synonym store = "color_image list"

definition green :: color where
  "green = (0, 255, 0)"

definition orange :: color where
  "orange = (0, 165, 255)"

definition red :: color where
  "red = (0, 0, 255)"

definition FONT_HERSHEY_SIMPLEX :: nat where
  "FONT_HERSHEY_SIMPLEX = 0"

definition box_color :: "text_box \<Rightarrow> color" where
  "box_color box =
     (if box_confidence box > 70 then (0, 255, 0)
      else if box_confidence box > 50 then (255, 165, 0)
      else (0, 0, 255))"

definition draw_box :: "env \<Rightarrow> nat \<Rightarrow> store \<Rightarrow> text_box \<Rightarrow> store" where
  "draw_box L result_image st box =
     (let x = box_x box; y = box_y box; w = box_width box; h = box_height box;
          color = box_color box;
          st1 = st[result_image :=
                  cv2_rectangle L (st ! result_image) (x, y) (x + w, y + h) color 2];
          label = format_0f (box_confidence box) @ ustr ''%''
      in st1[result_image :=
               cv2_putText L (st1 ! result_image) label (x, y - 5) FONT_HERSHEY_SIMPLEX (1 / 2)
                 color 1])"

definition draw_bounding_boxes :: "env \<Rightarrow> store \<Rightarrow> nat \<Rightarrow> text_box list \<Rightarrow> store \<times> nat" where
  "draw_bounding_boxes L st img boxes =
     (let result_image = length st;
          st1 = st @ [st ! img]
      in (foldl (draw_box L result_image) st1 boxes, result_image))"

subsection \<open>extract_text\<close>

text \<open>Lines 117 to 139, with the same placement of the \<^verbatim>\<open>try\<close> as above.\<close>

definition extract_text :: "env \<Rightarrow> color_image \<Rightarrow> exn + pystr" where
  "extract_text L img =
     exn_bind (preprocess_image L img) (\<lambda>processed.
       case exn_bind (tess_image_to_string L processed (ustr ''--oem 3 --psm 3'') (ustr ''eng''))
              (\<lambda>text1.
            exn_bind (tess_image_to_string L processed (ustr ''--oem 3 --psm 6'') (ustr ''eng''))
              (\<lambda>text2.
                 if length (py_strip text2) > length (py_strip text1) then Inr (py_strip text2)
                 else Inr (py_strip text1))) of
         Inl e \<Rightarrow> Inr []
       | Inr t \<Rightarrow> Inr t)"

subsection \<open>process_ocr\<close>

text \<open>
  Lines 141 to 192. \<open>process_ocr_body\<close> is the \<^verbatim>\<open>try\<close> block and \<open>process_ocr\<close> adds
  the handler \<^verbatim>\<open>except Exception as e\<close>, which raises the status 500 with the text of
  \<^verbatim>\<open>e\<close>. An \<open>Inl\<close> result of \<open>process_ocr\<close> is the exception that leaves the
  endpoint: the framework answers it with the status code and the detail it carries. The
  decoded image is the only array of the store when the annotator is called.
  \<^verbatim>\<open>round(avg_conf, 2)\<close> leaves the integer \<^verbatim>\<open>0\<close> as it is and rounds a numpy float.
\<close>

definition round_num :: "env \<Rightarrow> pynum \<Rightarrow> nat \<Rightarrow> pynum" where
  "round_num L v ndigits =
     (case v of PyInt n \<Rightarrow> PyInt n | NpFloat x \<Rightarrow> NpFloat (py_round L x ndigits))"

definition process_ocr_body :: "env \<Rightarrow> byte list \<Rightarrow> exn + ocr_response" where
  "process_ocr_body L contents =
     (case cv2_imdecode L contents of
        None \<Rightarrow> Inl (HTTPException 400 (ustr ''Invalid image file''))
      | Some img \<Rightarrow>
          exn_bind (detect_text_regions L img) (\<lambda>text_boxes.
          exn_bind (extract_text L img) (\<lambda>extracted_text.
            let (st, image_with_boxes) = draw_bounding_boxes L [img] 0 text_boxes;
                buffer = cv2_imencode L (ustr ''.jpg'') (st ! image_with_boxes);
                image_base64 = b64encode L buffer;
                avg_conf =
                  (if text_boxes \<noteq> [] then NpFloat (np_mean L (map box_confidence text_boxes))
                   else PyInt 0)
            in Inr
                 \<lparr>resp_success = True,
                  resp_text =
                    (if extracted_text \<noteq> [] then extracted_text
                     else ustr ''Tidak dapat mendeteksi teks''),
                  resp_average_confidence = round_num L avg_conf 2,
                  resp_rotation_angle = 0,
                  resp_text_boxes = text_boxes,
                  resp_processed_image = ustr ''data:image/jpeg;base64,'' @ image_base64,
                  resp_total_boxes = length text_boxes\<rparr>)))"

definition process_ocr :: "env \<Rightarrow> byte list \<Rightarrow> exn + ocr_response" where
  "process_ocr L contents =
     (case process_ocr_body L contents of
        Inl e \<Rightarrow> Inl (HTTPException 500 (ustr ''Processing error: '' @ exn_str L e))
      | Inr r \<Rightarrow> Inr r)"

section \<open>Library contracts and a test double\<close>

text \<open>
  What the claims about image sizes need from OpenCV: the filters between the resize and the
  return keep the shape of their input, and \<^verbatim>\<open>cv2.resize\<close> returns an image of the
  requested positive size.
\<close>

definition filters_keep_shape :: "env \<Rightarrow> bool" where
  "filters_keep_shape L \<longleftrightarrow>
     (\<forall>g a b c. shape (cv2_fastNlMeansDenoising L g a b c) = shape g) \<and>
     (\<forall>g a b. shape (cv2_clahe_apply L a b g) = shape g) \<and>
     (\<forall>g a b c. shape (cv2_adaptiveThreshold L g a b c) = shape g) \<and>
     (\<forall>g a b. shape (cv2_GaussianBlur L g a b) = shape g) \<and>
     (\<forall>g a b. shape (cv2_threshold_otsu L g a b) = shape g)"

definition resize_gives_size :: "env \<Rightarrow> bool" where
  "resize_gives_size L \<longleftrightarrow>
     (\<forall>g w h. 0 < w \<and> 0 < h \<longrightarrow> shape (cv2_resize L g (w, h)) = (nat h, nat w))"

text \<open>
  A stand-in for the libraries, used to run the module on concrete inputs. Its decoder
  accepts three bytes, the height and the two bytes of the width, and yields a white image of
  that size; its filters are trivial; its OCR engine answers what it is told to. \<open>stub_mean\<close> is the mean of
  floats whose sum is exact, and \<open>stub_round\<close> follows numpy's rounding of a float to
  decimals: scale, round to the nearest integer (ties to even), scale back.
\<close>

definition blank :: "nat \<Rightarrow> nat \<Rightarrow> 'p \<Rightarrow> 'p image" where
  "blank h w p = \<lparr>im_height = h, im_width = w, im_data = replicate (h * w) p\<rparr>"

definition stub_imdecode :: "byte list \<Rightarrow> color_image option" where
  "stub_imdecode bs =
     (case bs of
        [h, stub_preprocess_white, w0] \<Rightarrow>
          if h = 0 \<or> (stub_preprocess_white = 0 \<and> w0 = 0) then None
          else Some (blank (unat h) (256 * unat stub_preprocess_white + unat w0) (255, 255, 255))
      | _ \<Rightarrow> None)"

definition stub_cvtColor :: "color_image \<Rightarrow> gray_image" where
  "stub_cvtColor im =
     \<lparr>im_height = im_height im, im_width = im_width im,
      im_data = map (\<lambda>(b, g, r). g) (im_data im)\<rparr>"

definition stub_threshold :: "gray_image \<Rightarrow> gray_image" where
  "stub_threshold g = g\<lparr>im_data := map (\<lambda>p. if p < 128 then 0 else 255) (im_data g)\<rparr>"

definition stub_rectangle :: "color_image \<Rightarrow> color \<Rightarrow> color_image" where
  "stub_rectangle im c =
     (case c of (b, g, r) \<Rightarrow> im\<lparr>im_data := map (\<lambda>p. (of_nat b, of_nat g, of_nat r)) (im_data im)\<rparr>)"

definition stub_mean :: "rat list \<Rightarrow> rat" where
  "stub_mean xs = fl (sum_list xs / of_nat (length xs))"

definition stub_round :: "rat \<Rightarrow> nat \<Rightarrow> rat" where
  "stub_round x ndigits = fl (of_int (round_half_even (fl (x * 10 ^ ndigits))) / 10 ^ ndigits)"

definition stub_exn_str :: "exn \<Rightarrow> pystr" where
  "stub_exn_str e =
     (case e of
        HTTPException code detail \<Rightarrow> dec code @ ustr '': '' @ detail
      | ZeroDivisionError \<Rightarrow> ustr ''division by zero''
      | IndexError \<Rightarrow> ustr ''list index out of range''
      | OverflowError \<Rightarrow> ustr ''int too large to convert to float''
      | ValueError m \<Rightarrow> m
      | EngineError m \<Rightarrow> m)"

definition stub_env :: "exn + ocr_data \<Rightarrow> exn + pystr \<Rightarrow> exn + pystr \<Rightarrow> env" where
  "stub_env words page block =
     \<lparr>cv2_imdecode = stub_imdecode,
      cv2_cvtColor = stub_cvtColor,
      cv2_resize = (\<lambda>g (w, h). blank (nat h) (nat w) 255),
      cv2_fastNlMeansDenoising = (\<lambda>g a b c. g),
      cv2_clahe_apply = (\<lambda>a b g. g),
      cv2_adaptiveThreshold = (\<lambda>g a b c. g),
      cv2_GaussianBlur = (\<lambda>g a b. g),
      cv2_threshold_otsu = (\<lambda>g a b. stub_threshold g),
      cv2_rectangle = (\<lambda>im p q c t. stub_rectangle im c),
      cv2_putText = (\<lambda>im s p f z c t. im),
      cv2_imencode = (\<lambda>ext im. [of_nat (im_height im), of_nat (im_width im)]),
      tess_image_to_data = (\<lambda>g config lang. words),
      tess_image_to_string =
        (\<lambda>g config lang. if config = ustr ''--oem 3 --psm 3'' then page else block),
      np_mean = stub_mean,
      py_round = stub_round,
      b64encode = map unat,
      exn_str = stub_exn_str\<rparr>"

text \<open>
  A box stems from a word of the engine's table: some row has a confidence above 30 and a
  text that is not blank, and the box carries that confidence and the stripped text.
\<close>

definition from_word :: "ocr_data \<Rightarrow> text_box \<Rightarrow> bool" where
  "from_word data b \<longleftrightarrow>
     (\<exists>i c. i < length (d_text data) \<and> i < length (d_conf data) \<and> d_conf data ! i = Inr c \<and>
        30 < c \<and> box_confidence b = fl (of_int c) \<and>
        box_text b = py_strip (d_text data ! i) \<and> box_text b \<noteq> [])"

subsection \<open>Concrete inputs\<close>

text \<open>
  Images of width 2000 (no resize), two tables of the engine, a box, an stub_decode_upload that is not an
  image (the bytes of \<^verbatim>\<open>hello\<close>) and one that the stand-in decodes to a white image of
  height 1 and width 2000.
\<close>

definition wide_white :: color_image where
  "wide_white = blank 1 2000 (255, 255, 255)"


definition mixed_words :: ocr_data where
  "mixed_words =
     \<lparr>d_text = [ustr ''Hello'', ustr ''   '', ustr ''low''],
      d_conf = map Inr [95, 96, 20],
      d_left = map Inr [10, 60, 80],
      d_top = map Inr [5, 5, 5],
      d_width = map Inr [40, 10, 30],
      d_height = map Inr [12, 12, 12]\<rparr>"

definition three_words :: ocr_data where
  "three_words =
     \<lparr>d_text = [ustr ''Hello'', ustr ''OCR'', ustr ''world''],
      d_conf = map Inr [31, 32, 32],
      d_left = map Inr [10, 60, 100],
      d_top = map Inr [5, 5, 5],
      d_width = map Inr [40, 30, 40],
      d_height = map Inr [12, 12, 12]\<rparr>"

definition word_box :: "pystr \<Rightarrow> int \<Rightarrow> int \<Rightarrow> rat \<Rightarrow> text_box" where
  "word_box t x w c =
     \<lparr>box_text = t, box_x = x, box_y = 5, box_width = w, box_height = 12, box_confidence = c\<rparr>"

definition engine_down :: "exn + 'a" where
  "engine_down = Inl (EngineError (ustr ''tesseract is not installed''))"

definition not_an_image :: "byte list" where
  "not_an_image = [104, 101, 108, 108, 111]"

definition wide_upload :: "byte list" where
  "wide_upload = [1, 7, 208]"

text \<open>
  The answer of the stand-in to \<open>wide_upload\<close> when the engine reports
  \<open>three_words\<close>.
\<close>

definition sample_response :: ocr_response where
  "sample_response =
     \<lparr>resp_success = True,
      resp_text = ustr ''Hello world'',
      resp_average_confidence = NpFloat (fl (3167 / 100)),
      resp_rotation_angle = 0,
      resp_text_boxes =
        [word_box (ustr ''Hello'') 10 40 31, word_box (ustr ''OCR'') 60 30 32,
         word_box (ustr ''world'') 100 40 32],
      resp_processed_image = ustr ''data:image/jpeg;base64,'' @ [1, 208],
      resp_total_boxes = 3\<rparr>"

section \<open>Auxiliary facts\<close>

subsection \<open>Exceptions and loops\<close>

lemma exn_bind_simps [simp]:
  "exn_bind (Inl e) f = Inl e"
  "exn_bind (Inr v) f = f v"
  by (simp_all add: exn_bind_def)

lemma exn_bind_eq_Inr:
  "exn_bind m f = Inr r \<longleftrightarrow> (\<exists>v. m = Inr v \<and> f v = Inr r)"
  by (cases m) simp_all

lemma for_loop_invariant:
  assumes "for_loop body js s = Inr s'" and "P s"
    and "\<And>i s t. i \<in> set js \<Longrightarrow> P s \<Longrightarrow> body i s = Inr t \<Longrightarrow> P t"
  shows "P s'"
  using assms
proof (induction js arbitrary: s)
  case Nil
  then show ?case by simp
next
  case (Cons j js)
  from Cons.prems(1) obtain t where t: "body j s = Inr t" and rest: "for_loop body js t = Inr s'"
    by (auto split: sum.splits)
  have Pt: "P t" using Cons.prems(3) [of j s t] Cons.prems(2) t by simp
  have step: "P t'" if "i \<in> set js" "P s0" "body i s0 = Inr t'" for i s0 t'
    using Cons.prems(3) [of i s0 t'] that by simp
  show ?case by (rule Cons.IH [OF rest Pt step])
qed

subsection \<open>Rounding to binary64\<close>

lemma pow2_int_pos [simp]: "0 < power_int (2::rat) e"
  by (simp add: power_int_def)

lemma pow2_int_mono: "a \<le> b \<Longrightarrow> power_int (2::rat) a \<le> power_int 2 b"
  by (rule power_int_increasing) simp_all

lemma pow2_int_less_cancel: "power_int (2::rat) a < power_int 2 b \<Longrightarrow> a < b"
  using pow2_int_mono [of b a] by (cases "a < b") auto

lemma bitlen_rat_bounds:
  assumes "0 < p"
  shows "power_int (2::rat) (bitlen p - 1) \<le> of_int p" and "of_int p < power_int (2::rat) (bitlen p)"
proof -
  from bitlen_bounds [OF assms]
  have lo: "2 ^ nat (bitlen p - 1) \<le> p" and hi: "p < 2 ^ nat (bitlen p)" by simp_all
  have b1: "1 \<le> bitlen p"
    using assms bitlen_eq_zero_iff [of p] bitlen_nonneg [of p] by linarith
  have "(of_int (2 ^ nat (bitlen p - 1)) :: rat) \<le> of_int p"
    using lo by (simp only: of_int_le_iff)
  then show "power_int (2::rat) (bitlen p - 1) \<le> of_int p"
    using b1 by (simp add: power_int_def)
  have "(of_int p :: rat) < of_int (2 ^ nat (bitlen p))"
    using hi by (simp only: of_int_less_iff)
  then show "of_int p < power_int (2::rat) (bitlen p)"
    using b1 by (simp add: power_int_def)
qed

lemma float_exponent_bounds:
  assumes "0 < x"
  shows "power_int 2 (float_exponent x) \<le> x" and "x < power_int 2 (float_exponent x + 1)"
proof -
  obtain p q where pq: "quotient_of x = (p, q)" by (cases "quotient_of x")
  then have q: "0 < q" and x: "x = of_int p / of_int q"
    by (simp_all add: quotient_of_denom_pos quotient_of_div)
  from assms x q have p: "0 < p"
    by (simp add: zero_less_divide_iff)
  let ?e = "bitlen p - bitlen q"
  note P = bitlen_rat_bounds [OF p] and Q = bitlen_rat_bounds [OF q]
  have qpos: "(0::rat) < of_int q" using q by simp
  have pnn: "(0::rat) \<le> of_int p" using p by simp
  have "x < power_int 2 (bitlen p) / power_int 2 (bitlen q - 1)"
    unfolding x using P(2) Q(1) pnn
    by (intro frac_less) simp_all
  also have "\<dots> = power_int 2 (?e + 1)"
    by (simp add: power_int_diff [symmetric] algebra_simps)
  finally have hi: "x < power_int 2 (?e + 1)" .
  have "power_int 2 (bitlen p - 1) / power_int 2 (bitlen q) \<le> x"
    unfolding x using P(1) Q(2) qpos pnn
    by (intro frac_le) simp_all
  moreover have "power_int (2::rat) (bitlen p - 1) / power_int 2 (bitlen q) = power_int 2 (?e - 1)"
    by (simp add: power_int_diff [symmetric] algebra_simps)
  ultimately have lo: "power_int 2 (?e - 1) \<le> x" by simp
  have fe: "float_exponent x = (if power_int 2 ?e \<le> x then ?e else ?e - 1)"
    by (simp add: float_exponent_def pq Let_def)
  show "power_int 2 (float_exponent x) \<le> x"
    using lo by (simp add: fe)
  show "x < power_int 2 (float_exponent x + 1)"
    using hi by (simp add: fe not_le)
qed

lemma round_half_even_ge:
  assumes "of_int n \<le> x"
  shows "n \<le> round_half_even x"
proof -
  have "n \<le> \<lfloor>x\<rfloor>" using assms by (simp add: le_floor_iff)
  then show ?thesis by (simp add: round_half_even_def Let_def)
qed

lemma round_half_even_of_int [simp]: "round_half_even (of_int n) = n"
  by (simp add: round_half_even_def)

lemma fl_ge_pow2:
  assumes "power_int 2 k \<le> x"
  shows "power_int 2 k \<le> fl x"
proof -
  have x: "0 < x" using assms pow2_int_pos [of k] by linarith
  let ?e = "float_exponent x"
  let ?u = "power_int (2::rat) (?e - 52)"
  have "power_int 2 k < power_int (2::rat) (?e + 1)"
    using assms float_exponent_bounds(2) [OF x] by linarith
  then have ke: "k \<le> ?e" using pow2_int_less_cancel by fastforce
  have "power_int 2 ?e / ?u \<le> x / ?u"
    using float_exponent_bounds(1) [OF x] by (simp add: divide_right_mono)
  moreover have "power_int (2::rat) ?e / ?u = of_int (2 ^ 52)"
    by (simp add: power_int_diff [symmetric])
  ultimately have "(2::int) ^ 52 \<le> round_half_even (x / ?u)"
    by (intro round_half_even_ge) simp
  then have "(of_int (2 ^ 52) :: rat) \<le> of_int (round_half_even (x / ?u))"
    by (simp only: of_int_le_iff)
  then have B: "of_int (2 ^ 52) * ?u \<le> of_int (round_half_even (x / ?u)) * ?u"
    by (intro mult_right_mono) simp_all
  have C: "power_int (2::rat) ?e = of_int (2 ^ 52) * ?u"
    using power_int_add [of "2::rat" 52 "?e - 52"] by simp
  have D: "of_int (round_half_even (x / ?u)) * ?u = fl x"
    using x by (simp add: fl_def Let_def)
  note C
  also note B
  also note D
  finally have "power_int 2 ?e \<le> fl x" .
  with pow2_int_mono [OF ke] show ?thesis by linarith
qed

lemma fl_ge_1: "1 \<le> x \<Longrightarrow> 1 \<le> fl x"
  using fl_ge_pow2 [of 0 x] by simp

lemma round_half_even_le: "of_int (round_half_even y) \<le> y + 1 / 2"
proof -
  have "round_half_even y = \<lfloor>y\<rfloor> \<or>
        (round_half_even y = \<lfloor>y\<rfloor> + 1 \<and> 1 / 2 \<le> y - of_int \<lfloor>y\<rfloor>)"
    by (auto simp: round_half_even_def Let_def)
  then show ?thesis
  proof
    assume e: "round_half_even y = \<lfloor>y\<rfloor>"
    have "of_int \<lfloor>y\<rfloor> \<le> y + 1 / 2"
      using of_int_floor_le [of y] by linarith
    then show ?thesis by (simp only: e)
  next
    assume e: "round_half_even y = \<lfloor>y\<rfloor> + 1 \<and> 1 / 2 \<le> y - of_int \<lfloor>y\<rfloor>"
    then have "of_int (\<lfloor>y\<rfloor> + 1) \<le> y + 1 / 2" by simp
    with e show ?thesis by (simp only:)
  qed
qed

lemma fl_le:
  assumes "0 < x"
  shows "fl x \<le> x * (1 + 1 / 2 ^ 53)"
proof -
  let ?e = "float_exponent x"
  let ?u = "power_int (2::rat) (?e - 52)"
  have u: "0 < ?u" by simp
  have fx: "fl x = of_int (round_half_even (x / ?u)) * ?u"
    using assms by (simp add: fl_def Let_def)
  have "of_int (round_half_even (x / ?u)) * ?u \<le> (x / ?u + 1 / 2) * ?u"
    using round_half_even_le [of "x / ?u"] u by (intro mult_right_mono) simp_all
  also have "\<dots> = x + ?u / 2"
    using u by (simp add: field_simps)
  finally have 1: "fl x \<le> x + ?u / 2" by (simp add: fx)
  have "?u = power_int 2 ?e / 2 ^ 52"
    by (simp add: power_int_diff)
  also have "\<dots> \<le> x / 2 ^ 52"
    using float_exponent_bounds(1) [OF assms] by (intro divide_right_mono) simp_all
  finally have "?u / 2 \<le> x / 2 ^ 53" by simp
  with 1 show ?thesis by (simp add: field_simps)
qed

lemma fl_pos: "0 < x \<Longrightarrow> 0 < fl x"
proof -
  assume x: "0 < x"
  have "power_int 2 (float_exponent x) \<le> fl x"
    by (rule fl_ge_pow2) (rule float_exponent_bounds(1) [OF x])
  moreover have "0 < power_int (2::rat) (float_exponent x)" by simp
  ultimately show ?thesis by linarith
qed

lemma scaled_width_less:
  assumes "0 < w" and "w < 2000"
  shows "fl (fl (of_nat w) * fl (2000 / of_nat w)) < 2001"
proof -
  let ?d = "1 + 1 / 2 ^ 53 :: rat"
  let ?a = "fl (of_nat w)" and ?b = "fl (2000 / of_nat w)"
  have w: "(0::rat) < of_nat w" using assms by simp
  have q: "(0::rat) < 2000 / of_nat w" using w by simp
  have a: "?a \<le> of_nat w * ?d" by (rule fl_le [OF w])
  have b: "?b \<le> 2000 / of_nat w * ?d" by (rule fl_le [OF q])
  have a0: "0 < ?a" by (rule fl_pos [OF w])
  have b0: "0 < ?b" by (rule fl_pos [OF q])
  have "?a * ?b \<le> (of_nat w * ?d) * (2000 / of_nat w * ?d)"
    using a b a0 b0 by (intro mult_mono) simp_all
  also have "\<dots> = 2000 * ?d * ?d"
    using w by simp
  finally have ab: "?a * ?b \<le> 2000 * ?d * ?d" .
  have ab0: "0 < ?a * ?b" using a0 b0 by simp
  have "fl (?a * ?b) \<le> ?a * ?b * ?d" by (rule fl_le [OF ab0])
  also have "\<dots> \<le> 2000 * ?d * ?d * ?d"
    using ab by (intro mult_right_mono) simp_all
  also have "\<dots> < 2001" by simp
  finally show ?thesis .
qed

lemma scaled_dim_ge_1:
  assumes "0 < n" and "0 < w" and "w < 2000"
  shows "1 \<le> fl (fl (of_nat n) * fl (2000 / of_nat w))"
proof -
  have "(1::rat) \<le> of_nat n" using assms(1) by simp
  then have a: "1 \<le> fl (of_nat n)" by (rule fl_ge_1)
  have "(1::rat) \<le> 2000 / of_nat w" using assms(2,3) by simp
  then have b: "1 \<le> fl (2000 / of_nat w)" by (rule fl_ge_1)
  have "1 * 1 \<le> fl (of_nat n) * fl (2000 / of_nat w)"
    using a b by (intro mult_mono) simp_all
  then show ?thesis by (intro fl_ge_1) simp
qed

lemma fl_small_ints:
  "fl 95 = 95" "fl 31 = 31" "fl 32 = 32" "fl 3 = 3" "fl 1 = 1" "fl 2000 = 2000"
  by code_simp+

lemma fl_of_int_gt_30:
  assumes "30 < n"
  shows "30 < fl (of_int n)"
proof (cases "n = 31")
  case True
  then show ?thesis by (simp add: fl_small_ints(2))
next
  case False
  with assms have "32 \<le> n" by simp
  then have "(of_int 32 :: rat) \<le> of_int n" by (simp only: of_int_le_iff)
  then have "power_int 2 5 \<le> (of_int n :: rat)" by simp
  from fl_ge_pow2 [OF this] show ?thesis by simp
qed

lemma scaled_dims_3: "py_trunc (fl (fl 3 * fl (2000 / 3))) = 2000" "py_trunc (fl (fl 1 * fl (2000 / 3))) = 666"
  "round_half_even (2000 / 3) = 667" "fl (fl 3 * fl (2000 / 3)) = 2000"
  by code_simp+

lemma scaled_dims_19:
  "py_trunc (fl (fl 19 * fl (2000 / 19))) = 1999"
  "py_trunc (fl (fl 11 * fl (2000 / 19))) = 1157"
  "round_half_even (fl (fl 19 * fl (2000 / 19))) = 2000"
  "round_half_even (fl (fl 11 * fl (2000 / 19))) = 1158"
  by code_simp+

lemma dec_digits: "dec 400 = ustr ''400''" "dec 95 = ustr ''95''"
  by code_simp+

lemma stub_mean_three: "stub_round (stub_mean [31, 32, 32]) 2 = fl (3167 / 100)"
  by code_simp

lemma stub_mean_three_differs: "3 / 1000 < \<bar>fl (3167 / 100) - 95 / 3\<bar>"
  by code_simp

subsection \<open>Strings\<close>

lemma py_strip_idem: "py_strip (py_strip s) = py_strip s"
proof -
  let ?t = "dropWhile py_isspace s"
  let ?u = "rev (dropWhile py_isspace (rev ?t))"
  show ?thesis
  proof (cases "?u = []")
    case True
    then have "py_strip s = []" by (simp only: py_strip_def)
    then show ?thesis by (simp add: py_strip_def [of "[]"])
  next
    case False
    then have ne: "dropWhile py_isspace (rev ?t) \<noteq> []" by simp
    then have tne: "?t \<noteq> []" by (cases "dropWhile py_isspace s") simp_all
    have last_ok: "\<not> py_isspace (hd (dropWhile py_isspace (rev ?t)))"
      using ne by (rule hd_dropWhile)
    have hd_t: "\<not> py_isspace (hd ?t)"
      using tne by (rule hd_dropWhile)
    obtain k where k: "dropWhile py_isspace (rev ?t) = drop k (rev ?t)"
      by (metis dropWhile_eq_drop)
    have "?u = take (length ?t - k) ?t"
      by (simp add: k rev_drop)
    with False have "hd ?u = hd ?t"
      by (metis hd_take list.size(3) take_eq_Nil not_gr_zero)
    with hd_t False have 1: "dropWhile py_isspace ?u = ?u"
      by (cases ?u) auto
    have "rev ?u = dropWhile py_isspace (rev ?t)" by simp
    with last_ok ne have 2: "dropWhile py_isspace (rev ?u) = rev ?u"
      by (cases "dropWhile py_isspace (rev ?t)") auto
    show ?thesis
      unfolding py_strip_def [of "py_strip s"] unfolding py_strip_def [of s]
      using 1 2 by simp
  qed
qed

lemma ustr_Nil_iff [simp]: "ustr s = [] \<longleftrightarrow> s = []"
  by (simp add: ustr_def)

lemma length_ustr [simp]: "length (ustr s) = length s"
  by (simp add: ustr_def)

lemma config_neq: "ustr ''--oem 3 --psm 6'' \<noteq> ustr ''--oem 3 --psm 3''"
  by (simp add: ustr_def)

lemma strip_examples:
  "py_strip (ustr ''Hello'') = ustr ''Hello''"
  "py_strip (ustr ''   '') = []"
  "py_strip (ustr ''OCR'') = ustr ''OCR''"
  "py_strip (ustr ''world'') = ustr ''world''"
  by (simp_all add: py_strip_def ustr_def py_isspace_def)

lemma strip_padded: "py_strip (ustr ''  Hello world  '') = ustr ''Hello world''"
  by (simp add: py_strip_def ustr_def py_isspace_def)

subsection \<open>The detection loop\<close>

lemma py_int_at_Inr: "py_int_at cells i = Inr c \<Longrightarrow> i < length cells \<and> cells ! i = Inr c"
  by (auto simp: py_int_at_def py_index_def split: if_splits)

lemma py_float_Inr: "py_float n = Inr r \<Longrightarrow> r = fl (of_int n)"
  by (auto simp: py_float_def Let_def split: if_splits)

lemma detect_step_Inr:
  assumes "detect_step data i boxes = Inr boxes'"
  shows "boxes' = boxes \<or> (\<exists>b. boxes' = boxes @ [b] \<and> from_word data b)"
proof -
  from assms obtain conf where conf: "py_int_at (d_conf data) i = Inr conf"
    and 1: "(if conf > 30 then
         exn_bind (py_index (d_text data) i) (\<lambda>t.
           let text = py_strip t
           in if text \<noteq> [] \<and> length text > 0 then
                exn_bind (py_int_at (d_left data) i) (\<lambda>x.
                exn_bind (py_int_at (d_top data) i) (\<lambda>y.
                exn_bind (py_int_at (d_width data) i) (\<lambda>w.
                exn_bind (py_int_at (d_height data) i) (\<lambda>h.
                exn_bind (py_float conf) (\<lambda>c.
                  Inr (boxes @
                    [\<lparr>box_text = text, box_x = x, box_y = y, box_width = w, box_height = h,
                      box_confidence = c\<rparr>]))))))
              else Inr boxes)
       else Inr boxes) = Inr boxes'"
    unfolding detect_step_def exn_bind_eq_Inr by blast
  show ?thesis
  proof (cases "conf > 30")
    case False
    with 1 show ?thesis by simp
  next
    case True
    with 1 obtain t where t: "py_index (d_text data) i = Inr t"
      and 2: "(let text = py_strip t
           in if text \<noteq> [] \<and> length text > 0 then
                exn_bind (py_int_at (d_left data) i) (\<lambda>x.
                exn_bind (py_int_at (d_top data) i) (\<lambda>y.
                exn_bind (py_int_at (d_width data) i) (\<lambda>w.
                exn_bind (py_int_at (d_height data) i) (\<lambda>h.
                exn_bind (py_float conf) (\<lambda>c.
                  Inr (boxes @
                    [\<lparr>box_text = py_strip t, box_x = x, box_y = y, box_width = w, box_height = h,
                      box_confidence = c\<rparr>]))))))
              else Inr boxes) = Inr boxes'"
      by (auto simp: exn_bind_eq_Inr Let_def)
    from t have ti: "i < length (d_text data)" and tv: "t = d_text data ! i"
      by (auto simp: py_index_def split: if_splits)
    show ?thesis
    proof (cases "py_strip t = []")
      case True
      with 2 show ?thesis by simp
    next
      case False
      with 2 obtain x y w h c where c: "py_float conf = Inr c"
        and b: "boxes' = boxes @
                    [\<lparr>box_text = py_strip t, box_x = x, box_y = y, box_width = w, box_height = h,
                      box_confidence = c\<rparr>]"
        by (auto simp: exn_bind_eq_Inr Let_def)
      have "from_word data \<lparr>box_text = py_strip t, box_x = x, box_y = y, box_width = w,
              box_height = h, box_confidence = c\<rparr>"
        unfolding from_word_def
        using py_int_at_Inr [OF conf] py_float_Inr [OF c] True False ti tv
        by (intro exI [of _ i] exI [of _ conf]) simp
      with b show ?thesis by blast
    qed
  qed
qed

lemma detect_loop_from_word:
  assumes "for_loop (detect_step data) js [] = Inr boxes"
  shows "\<forall>b \<in> set boxes. from_word data b"
proof (rule for_loop_invariant [where P = "\<lambda>bs. \<forall>b \<in> set bs. from_word data b", OF assms])
  show "\<forall>b \<in> set []. from_word data b" by simp
next
  fix i s t
  assume "\<forall>b \<in> set s. from_word data b" and "detect_step data i s = Inr t"
  then show "\<forall>b \<in> set t. from_word data b"
    using detect_step_Inr [of data i s t] by auto
qed

lemma detect_total:
  "preprocess_image L img = Inr processed \<Longrightarrow> \<exists>boxes. detect_text_regions L img = Inr boxes"
  by (simp add: detect_text_regions_def split: sum.splits)

lemma extract_total:
  "preprocess_image L img = Inr processed \<Longrightarrow> \<exists>t. extract_text L img = Inr t"
  by (simp add: extract_text_def split: sum.splits)

subsection \<open>Drawing in the store\<close>

lemma draw_box_length: "length (draw_box L r st b) = length st"
  by (simp add: draw_box_def Let_def)

lemma draw_box_other: "a \<noteq> r \<Longrightarrow> draw_box L r st b ! a = st ! a"
  by (simp add: draw_box_def Let_def)

lemma draw_box_local:
  "r < length st \<Longrightarrow> draw_box L r st b ! r = draw_box L 0 [st ! r] b ! 0"
  by (simp add: draw_box_def Let_def)

lemma draw_box_single: "draw_box L 0 [im] b = [draw_box L 0 [im] b ! 0]"
  by (simp add: draw_box_def Let_def)

lemma foldl_draw_box_length: "length (foldl (draw_box L r) st boxes) = length st"
  by (induction boxes arbitrary: st) (simp_all add: draw_box_length)

lemma foldl_draw_box_other: "a \<noteq> r \<Longrightarrow> foldl (draw_box L r) st boxes ! a = st ! a"
  by (induction boxes arbitrary: st) (simp_all add: draw_box_other)

lemma foldl_draw_box_local:
  "r < length st \<Longrightarrow> foldl (draw_box L r) st boxes ! r = foldl (draw_box L 0) [st ! r] boxes ! 0"
proof (induction boxes arbitrary: st)
  case Nil
  then show ?case by simp
next
  case (Cons b boxes)
  have "foldl (draw_box L r) (draw_box L r st b) boxes ! r =
        foldl (draw_box L 0) [draw_box L r st b ! r] boxes ! 0"
    using Cons.prems by (intro Cons.IH) (simp add: draw_box_length)
  also have "[draw_box L r st b ! r] = draw_box L 0 [st ! r] b"
    using draw_box_local [OF Cons.prems, of L b] draw_box_single [of L "st ! r" b] by simp
  finally show ?case by simp
qed

subsection \<open>The stand-in library on the concrete inputs\<close>

lemma shape_eq: "shape a = shape b \<longleftrightarrow> im_height a = im_height b \<and> im_width a = im_width b"
  by (simp add: shape_def)

lemma count_zero_blank: "count_zero (blank h w p) = (if p = 0 then h * w else 0)"
  by (simp add: count_zero_def blank_def filter_replicate)

lemma stub_threshold_blank: "stub_threshold (blank h w p) = blank h w (if p < 128 then 0 else 255)"
  by (simp add: stub_threshold_def blank_def)

lemma stub_cvtColor_blank: "stub_cvtColor (blank h w (b, g, r)) = blank h w g"
  by (simp add: stub_cvtColor_def blank_def)

lemma blank_fields [simp]: "im_height (blank h w p) = h" "im_width (blank h w p) = w"
  by (simp_all add: blank_def)

lemma stub_fields [simp]:
  "cv2_imdecode (stub_env a b c) = stub_imdecode"
  "cv2_cvtColor (stub_env a b c) = stub_cvtColor"
  "cv2_resize (stub_env a b c) = (\<lambda>g (w, h). blank (nat h) (nat w) 255)"
  "cv2_fastNlMeansDenoising (stub_env a b c) = (\<lambda>g a b c. g)"
  "cv2_clahe_apply (stub_env a b c) = (\<lambda>a b g. g)"
  "cv2_adaptiveThreshold (stub_env a b c) = (\<lambda>g a b c. g)"
  "cv2_GaussianBlur (stub_env a b c) = (\<lambda>g a b. g)"
  "cv2_threshold_otsu (stub_env a b c) = (\<lambda>g a b. stub_threshold g)"
  "cv2_rectangle (stub_env a b c) = (\<lambda>im p q c t. stub_rectangle im c)"
  "cv2_putText (stub_env a b c) = (\<lambda>im s p f z c t. im)"
  "cv2_imencode (stub_env a b c) = (\<lambda>ext im. [of_nat (im_height im), of_nat (im_width im)])"
  "tess_image_to_data (stub_env a b c) = (\<lambda>g config lang. a)"
  "tess_image_to_string (stub_env a b c) =
     (\<lambda>g config lang. if config = ustr ''--oem 3 --psm 3'' then b else c)"
  "np_mean (stub_env a b c) = stub_mean"
  "py_round (stub_env a b c) = stub_round"
  "b64encode (stub_env a b c) = map unat"
  "exn_str (stub_env a b c) = stub_exn_str"
  by (simp_all add: stub_env_def)

lemma stub_preprocess_wide:
  "2000 \<le> w \<Longrightarrow>
   preprocess_image (stub_env a b c) (blank h w (p, q, r)) =
     Inr (if q < 128 \<and> q \<noteq> 0 \<and> 0 < h then blank h w 0 else blank h w q)"
  by (auto simp: preprocess_image_def Let_def stub_cvtColor_blank stub_threshold_blank
      count_zero_blank)

lemma stub_keeps_shape: "filters_keep_shape (stub_env a b c)"
  by (simp add: filters_keep_shape_def shape_def stub_threshold_def)

lemma stub_resize_size: "resize_gives_size (stub_env a b c)"
  by (simp add: resize_gives_size_def shape_def)

lemma stub_preprocess_white: "preprocess_image (stub_env a b c) wide_white = Inr (blank 1 2000 255)"
  by (simp add: wide_white_def stub_preprocess_wide)


lemma py_float_small: "py_float 95 = Inr 95" "py_float 31 = Inr 31" "py_float 32 = Inr 32"
  by (simp_all add: py_float_def fl_small_ints)

lemma step_mixed:
  "detect_step mixed_words 0 bs = Inr (bs @ [word_box (ustr ''Hello'') 10 40 95])"
  "detect_step mixed_words (Suc 0) bs = Inr bs"
  "detect_step mixed_words 2 bs = Inr bs"
  by (simp_all add: detect_step_def mixed_words_def py_int_at_def py_index_def py_float_small
      strip_examples word_box_def Let_def)

lemma upt_0_3: "[0..<3] = [0, 1, 2]"
  by (simp add: upt_rec)

lemma stub_loop_mixed:
  "for_loop (detect_step mixed_words) [0..<length (d_text mixed_words)] [] =
     Inr [word_box (ustr ''Hello'') 10 40 95]"
proof -
  have "length (d_text mixed_words) = 3" by (simp add: mixed_words_def)
  then show ?thesis by (simp add: upt_0_3 step_mixed)
qed

lemma step_three:
  "detect_step three_words 0 bs = Inr (bs @ [word_box (ustr ''Hello'') 10 40 31])"
  "detect_step three_words (Suc 0) bs = Inr (bs @ [word_box (ustr ''OCR'') 60 30 32])"
  "detect_step three_words 2 bs = Inr (bs @ [word_box (ustr ''world'') 100 40 32])"
  by (simp_all add: detect_step_def three_words_def py_int_at_def py_index_def py_float_small
      strip_examples word_box_def Let_def)

lemma stub_loop_three:
  "for_loop (detect_step three_words) [0..<length (d_text three_words)] [] =
     Inr [word_box (ustr ''Hello'') 10 40 31, word_box (ustr ''OCR'') 60 30 32,
          word_box (ustr ''world'') 100 40 32]"
proof -
  have "length (d_text three_words) = 3" by (simp add: three_words_def)
  then show ?thesis by (simp add: upt_0_3 step_three)
qed

lemma stub_detect_mixed: "detect_text_regions (stub_env (Inr mixed_words) b c) wide_white =
   Inr [word_box (ustr ''Hello'') 10 40 95]"
  by (simp add: detect_text_regions_def stub_preprocess_white stub_loop_mixed)

lemma stub_extract: "extract_text (stub_env a (Inr (ustr ''  Hello world  '')) (Inr (ustr ''Hello''))) wide_white =
   Inr (ustr ''Hello world'')"
  by (simp add: extract_text_def stub_preprocess_white strip_examples strip_padded config_neq)

lemma stub_decode_upload: "stub_imdecode wide_upload = Some wide_white"
  by (simp add: stub_imdecode_def wide_upload_def wide_white_def)

lemma stub_detect_three: "detect_text_regions (stub_env (Inr three_words) b c) wide_white =
   Inr [word_box (ustr ''Hello'') 10 40 31, word_box (ustr ''OCR'') 60 30 32,
          word_box (ustr ''world'') 100 40 32]"
  by (simp add: detect_text_regions_def stub_preprocess_white stub_loop_three)

lemma draw_eval:
  "draw_bounding_boxes (stub_env a b c) [blank 1 2 (255, 255, 255)] 0
     [word_box (ustr ''Hello'') 10 40 95] =
   ([blank 1 2 (255, 255, 255), blank 1 2 (0, 255, 0)], 1)"
  by (simp add: draw_bounding_boxes_def draw_box_def Let_def box_color_def word_box_def
      green_def stub_rectangle_def blank_def)

lemma undecodable_gives_500:
  assumes "cv2_imdecode L contents = None"
  shows "process_ocr L contents =
           Inl (HTTPException 500
                  (ustr ''Processing error: '' @
                   exn_str L (HTTPException 400 (ustr ''Invalid image file''))))"
  using assms by (simp add: process_ocr_def process_ocr_body_def)


section \<open>The claims\<close>

subsection \<open>Preprocessing\<close>



text \<open>
  Claim C10. For a colour image whose grey version is at least 2000 pixels wide,
  \<^verbatim>\<open>preprocess_image\<close> does not resize: it returns an image with the height and width of
  the grey version of its input, provided the filters of the library keep the shape.
\<close>

theorem preprocess_image_keeps_wide_shape:
  assumes "filters_keep_shape L" and "2000 \<le> im_width (cv2_cvtColor L img)"
  shows "\<exists>r. preprocess_image L img = Inr r \<and>
             im_height r = im_height (cv2_cvtColor L img) \<and>
             im_width r = im_width (cv2_cvtColor L img)"
proof -
  let ?g = "cv2_cvtColor L img"
  let ?c = "cv2_clahe_apply L 2 (8, 8) (cv2_fastNlMeansDenoising L ?g 10 7 21)"
  have c: "shape ?c = shape ?g"
    using assms(1) by (simp add: filters_keep_shape_def)
  have a: "shape (cv2_adaptiveThreshold L ?c 255 11 2) = shape ?g"
    using assms(1) c by (simp add: filters_keep_shape_def)
  have o: "shape (cv2_threshold_otsu L (cv2_GaussianBlur L ?c (5, 5) 0) 0 255) = shape ?g"
    using assms(1) c by (simp add: filters_keep_shape_def)
  from assms(2) a o show ?thesis
    by (simp add: preprocess_image_def Let_def shape_eq)
qed

theorem preprocess_image_keeps_wide_shape_witness:
  "filters_keep_shape (stub_env engine_down engine_down engine_down) \<and>
   2000 \<le> im_width (cv2_cvtColor (stub_env engine_down engine_down engine_down) wide_white) \<and>
   (\<exists>r. preprocess_image (stub_env engine_down engine_down engine_down) wide_white = Inr r \<and>
        im_height r = 1 \<and> im_width r = 2000)"
proof -
  have h1: "filters_keep_shape (stub_env engine_down engine_down engine_down)"
    by (rule stub_keeps_shape)
  have h2: "2000 \<le> im_width (cv2_cvtColor (stub_env engine_down engine_down engine_down) wide_white)"
    by (simp add: wide_white_def stub_cvtColor_blank)
  from preprocess_image_keeps_wide_shape [OF h1 h2] h1 h2 show ?thesis
    by (simp add: wide_white_def stub_cvtColor_blank)
qed

text \<open>
  The shape after the resize. For a decodable colour image (positive height and width) and a
  library whose filters keep the shape and whose resize returns the requested size, the
  result below a width of 2000 has the two truncated float products as its height and width,
  and is never wider than 2000.
\<close>

lemma preprocess_image_upscale_shape:
  assumes "filters_keep_shape L" and "resize_gives_size L"
    and "0 < im_width (cv2_cvtColor L img)" and "0 < im_height (cv2_cvtColor L img)"
  shows "\<exists>r. preprocess_image L img = Inr r \<and>
           (let h = im_height (cv2_cvtColor L img); w = im_width (cv2_cvtColor L img);
                scale = fl (2000 / of_nat w)
            in (w < 2000 \<longrightarrow>
                  im_height r = nat (py_trunc (fl (fl (of_nat h) * scale))) \<and>
                  im_width r = nat (py_trunc (fl (fl (of_nat w) * scale))) \<and>
                  im_width r \<le> 2000) \<and>
               (2000 \<le> w \<longrightarrow> im_width r = w \<and> im_height r = h))"
proof -
  let ?g = "cv2_cvtColor L img"
  let ?w = "im_width ?g" and ?h = "im_height ?g"
  let ?s = "fl (2000 / of_nat ?w)"
  let ?nw = "py_trunc (fl (fl (of_nat ?w) * ?s))" and ?nh = "py_trunc (fl (fl (of_nat ?h) * ?s))"
  define g' where "g' = (if ?w < 2000 then cv2_resize L ?g (?nw, ?nh) else ?g)"
  define c where "c = cv2_clahe_apply L 2 (8, 8) (cv2_fastNlMeansDenoising L g' 10 7 21)"
  define ad where "ad = cv2_adaptiveThreshold L c 255 11 2"
  define ot where "ot = cv2_threshold_otsu L (cv2_GaussianBlur L c (5, 5) 0) 0 255"
  define r where "r = (if count_zero ot > count_zero ad then ot else ad)"
  have c: "shape c = shape g'"
    using assms(1) by (simp add: filters_keep_shape_def c_def)
  have "shape ad = shape g'" and "shape ot = shape g'"
    using assms(1) c by (simp_all add: filters_keep_shape_def ad_def ot_def)
  then have r: "shape r = shape g'" by (simp add: r_def)
  have pre: "preprocess_image L img = Inr r"
    using assms(3) by (simp add: preprocess_image_def Let_def r_def ot_def ad_def c_def g'_def)
  have small: "shape g' = (nat ?nh, nat ?nw) \<and> nat ?nw \<le> 2000"
    if lt: "?w < 2000"
  proof -
    have "1 \<le> fl (fl (of_nat ?w) * ?s)" and "1 \<le> fl (fl (of_nat ?h) * ?s)"
      using assms(3,4) lt by (simp_all add: scaled_dim_ge_1)
    then have pos: "0 < ?nw" "0 < ?nh"
      by (simp_all add: py_trunc_def)
    then have 1: "shape g' = (nat ?nh, nat ?nw)"
      using assms(2) lt by (simp add: resize_gives_size_def g'_def)
    have "fl (fl (of_nat ?w) * ?s) < 2001"
      using assms(3) lt by (rule scaled_width_less)
    then have "\<lfloor>fl (fl (of_nat ?w) * ?s)\<rfloor> < 2001"
      by (simp add: floor_less_iff)
    then have "?nw \<le> 2000"
      using pos(1) by (simp add: py_trunc_def split: if_splits)
    with 1 show ?thesis by simp
  qed
  have big: "shape g' = shape ?g" if "2000 \<le> ?w"
    using that by (simp add: g'_def)
  have "let h = ?h; w = ?w; scale = fl (2000 / of_nat w)
            in (w < 2000 \<longrightarrow>
                  im_height r = nat (py_trunc (fl (fl (of_nat h) * scale))) \<and>
                  im_width r = nat (py_trunc (fl (fl (of_nat w) * scale))) \<and>
                  im_width r \<le> 2000) \<and>
               (2000 \<le> w \<longrightarrow> im_width r = w \<and> im_height r = h)"
    unfolding Let_def using r small big
    by (cases "?w < 2000") (auto simp: shape_def)
  with pre show ?thesis by blast
qed

text \<open>A white image of height 1 and width 3 becomes 666 pixels high and 2000 wide.\<close>

lemma preprocess_image_shape_3:
  "map_sum id shape
     (preprocess_image (stub_env engine_down engine_down engine_down) (blank 1 3 (255, 255, 255))) =
     Inr (666, 2000)"
  by (simp add: preprocess_image_def Let_def stub_cvtColor_blank stub_threshold_blank
      count_zero_blank scaled_dims_3(1,2) shape_def)

text \<open>
  Claim C2 says that the result of \<^verbatim>\<open>preprocess_image\<close> is at least 2000 pixels wide and,
  for an input narrower than 2000, exactly 2000 wide, each new dimension being rounded to the
  nearest integer. The code computes \<^verbatim>\<open>int(width * scale)\<close> with the float
  \<^verbatim>\<open>scale = 2000 / width\<close>, and \<^verbatim>\<open>int\<close> truncates. For a white image of height 11 and
  width 19 the float product \<^verbatim>\<open>19 * (2000 / 19)\<close> is the float just below 2000, so the
  result is 1999 pixels wide and 1157 high, where rounding to the nearest integer gives 2000
  and 1158.
\<close>

theorem preprocess_image_width_19_is_1999:
  "map_sum id shape
     (preprocess_image (stub_env engine_down engine_down engine_down) (blank 11 19 (255, 255, 255))) =
     Inr (1157, 1999) \<and>
   py_trunc (fl (fl 19 * fl (2000 / 19))) = 1999 \<and>
   py_trunc (fl (fl 11 * fl (2000 / 19))) = 1157 \<and>
   round_half_even (fl (fl 19 * fl (2000 / 19))) = 2000 \<and>
   round_half_even (fl (fl 11 * fl (2000 / 19))) = 1158"
proof -
  have "map_sum id shape
     (preprocess_image (stub_env engine_down engine_down engine_down) (blank 11 19 (255, 255, 255))) =
     Inr (1157, 1999)"
    by (simp add: preprocess_image_def Let_def stub_cvtColor_blank stub_threshold_blank
        count_zero_blank scaled_dims_19(1,2) shape_def)
  then show ?thesis
    using scaled_dims_19 by (intro conjI)
qed

subsection \<open>Recognition\<close>

text \<open>
  Claim C3. Every box returned by \<^verbatim>\<open>detect_text_regions\<close> has a confidence strictly above
  30 and a text that is not empty after stripping white space. Moreover every returned box
  stems from a row of the engine's table whose confidence is above 30 and whose stripped text
  is not empty, so that rows with confidence at most 30 or with blank text yield no box.
\<close>

theorem detect_text_regions_filters_words:
  assumes "detect_text_regions L img = Inr boxes" and "b \<in> set boxes"
  shows "30 < box_confidence b \<and> py_strip (box_text b) \<noteq> [] \<and>
         (\<exists>processed data.
            preprocess_image L img = Inr processed \<and>
            tess_image_to_data L processed (ustr ''--oem 3 --psm 3'') (ustr ''eng'') = Inr data \<and>
            from_word data b)"
proof -
  obtain processed where p: "preprocess_image L img = Inr processed"
    using assms(1) by (cases "preprocess_image L img") (simp_all add: detect_text_regions_def)
  let ?r = "tess_image_to_data L processed (ustr ''--oem 3 --psm 3'') (ustr ''eng'')"
  obtain data where d: "?r = Inr data"
    using assms by (cases ?r) (simp_all add: detect_text_regions_def p)
  have l: "for_loop (detect_step data) [0..<length (d_text data)] [] = Inr boxes"
    using assms
    by (cases "for_loop (detect_step data) [0..<length (d_text data)] []")
      (simp_all add: detect_text_regions_def p d)
  from detect_loop_from_word [OF l] assms(2) have fw: "from_word data b" by blast
  then obtain i c where c: "30 < c" "box_confidence b = fl (of_int c)"
    and t: "box_text b = py_strip (d_text data ! i)" "box_text b \<noteq> []"
    unfolding from_word_def by blast
  have "30 < box_confidence b" using c fl_of_int_gt_30 by simp
  moreover have "py_strip (box_text b) \<noteq> []"
    using t py_strip_idem [of "d_text data ! i"] by simp
  ultimately show ?thesis using p d fw by blast
qed

text \<open>
  Of the rows (Hello, 95), (blank, 96) and (low, 20) only the first yields a box.
\<close>

theorem detect_text_regions_filters_words_witness:
  "detect_text_regions (stub_env (Inr mixed_words) engine_down engine_down) wide_white =
     Inr [word_box (ustr ''Hello'') 10 40 95] \<and>
   30 < box_confidence (word_box (ustr ''Hello'') 10 40 95) \<and>
   py_strip (box_text (word_box (ustr ''Hello'') 10 40 95)) \<noteq> [] \<and>
   (\<exists>processed data.
      preprocess_image (stub_env (Inr mixed_words) engine_down engine_down) wide_white =
        Inr processed \<and>
      tess_image_to_data (stub_env (Inr mixed_words) engine_down engine_down) processed
        (ustr ''--oem 3 --psm 3'') (ustr ''eng'') = Inr data \<and>
      from_word data (word_box (ustr ''Hello'') 10 40 95))"
proof -
  let ?b = "word_box (ustr ''Hello'') 10 40 95"
  have h1: "detect_text_regions (stub_env (Inr mixed_words) engine_down engine_down) wide_white =
              Inr [?b]"
    by (rule stub_detect_mixed)
  have h2: "?b \<in> set [?b]" by simp
  from detect_text_regions_filters_words [OF h1 h2] h1 show ?thesis by (rule_tac conjI)
qed

text \<open>
  Claim C4. When both engine passes return, \<^verbatim>\<open>extract_text\<close> returns the longer of the two
  stripped outputs, the full-page output (\<^verbatim>\<open>--psm 3\<close>) when the stripped lengths are equal;
  hence the length of the result is the larger of the two lengths and at least the smaller.
\<close>

theorem extract_text_returns_longer:
  assumes "preprocess_image L img = Inr processed"
    and "tess_image_to_string L processed (ustr ''--oem 3 --psm 3'') (ustr ''eng'') = Inr text1"
    and "tess_image_to_string L processed (ustr ''--oem 3 --psm 6'') (ustr ''eng'') = Inr text2"
  shows "\<exists>r. extract_text L img = Inr r \<and>
           (length (py_strip text2) > length (py_strip text1) \<longrightarrow> r = py_strip text2) \<and>
           (length (py_strip text2) < length (py_strip text1) \<longrightarrow> r = py_strip text1) \<and>
           (length (py_strip text2) = length (py_strip text1) \<longrightarrow> r = py_strip text1) \<and>
           length r = max (length (py_strip text1)) (length (py_strip text2)) \<and>
           min (length (py_strip text1)) (length (py_strip text2)) \<le> length r"
  using assms by (simp add: extract_text_def)

theorem extract_text_returns_longer_witness:
  "preprocess_image (stub_env engine_down (Inr (ustr ''  Hello world  '')) (Inr (ustr ''Hello'')))
     wide_white = Inr (blank 1 2000 255) \<and>
   (\<exists>r. extract_text (stub_env engine_down (Inr (ustr ''  Hello world  '')) (Inr (ustr ''Hello'')))
          wide_white = Inr r \<and>
        r = ustr ''Hello world'' \<and> length r = 11)"
proof -
  let ?L = "stub_env engine_down (Inr (ustr ''  Hello world  '')) (Inr (ustr ''Hello''))"
  have h1: "preprocess_image ?L wide_white = Inr (blank 1 2000 255)"
    by (rule stub_preprocess_white)
  have h2: "tess_image_to_string ?L (blank 1 2000 255) (ustr ''--oem 3 --psm 3'') (ustr ''eng'') =
              Inr (ustr ''  Hello world  '')"
    by simp
  have h3: "tess_image_to_string ?L (blank 1 2000 255) (ustr ''--oem 3 --psm 6'') (ustr ''eng'') =
              Inr (ustr ''Hello'')"
    by (simp add: config_neq)
  from extract_text_returns_longer [OF h1 h2 h3] h1 show ?thesis
    by (simp add: strip_examples strip_padded)
qed

text \<open>
  Claim C9. Once the image is preprocessed, an exception of the OCR engine does not leave the
  recognizer: if \<^verbatim>\<open>image_to_data\<close> raises, \<^verbatim>\<open>detect_text_regions\<close> returns the empty list;
  if either \<^verbatim>\<open>image_to_string\<close> call raises, \<^verbatim>\<open>extract_text\<close> returns the empty string.
  Both functions return for any behaviour of the engine, and a request whose upload decodes to
  that image is answered with a success response; when both the table and the first text pass
  fail, that response has no box and the placeholder text.
\<close>

theorem engine_failure_is_absorbed:
  assumes "preprocess_image L img = Inr processed"
  shows "(tess_image_to_data L processed (ustr ''--oem 3 --psm 3'') (ustr ''eng'') = Inl e \<longrightarrow>
            detect_text_regions L img = Inr []) \<and>
         (tess_image_to_string L processed (ustr ''--oem 3 --psm 3'') (ustr ''eng'') = Inl e \<longrightarrow>
            extract_text L img = Inr []) \<and>
         (tess_image_to_string L processed (ustr ''--oem 3 --psm 6'') (ustr ''eng'') = Inl e \<longrightarrow>
            extract_text L img = Inr []) \<and>
         (\<exists>boxes. detect_text_regions L img = Inr boxes) \<and>
         (\<exists>t. extract_text L img = Inr t) \<and>
         (\<forall>contents. cv2_imdecode L contents = Some img \<longrightarrow>
            (\<exists>r. process_ocr L contents = Inr r \<and>
               (tess_image_to_data L processed (ustr ''--oem 3 --psm 3'') (ustr ''eng'') = Inl e \<and>
                tess_image_to_string L processed (ustr ''--oem 3 --psm 3'') (ustr ''eng'') = Inl e \<longrightarrow>
                  resp_text_boxes r = [] \<and> resp_total_boxes r = 0 \<and>
                  resp_average_confidence r = PyInt 0 \<and>
                  resp_text r = ustr ''Tidak dapat mendeteksi teks'')))"
proof -
  let ?data = "tess_image_to_data L processed (ustr ''--oem 3 --psm 3'') (ustr ''eng'')"
  let ?page = "tess_image_to_string L processed (ustr ''--oem 3 --psm 3'') (ustr ''eng'')"
  let ?block = "tess_image_to_string L processed (ustr ''--oem 3 --psm 6'') (ustr ''eng'')"
  have 1: "?data = Inl e \<longrightarrow> detect_text_regions L img = Inr []"
    using assms by (simp add: detect_text_regions_def)
  have 2: "?page = Inl e \<longrightarrow> extract_text L img = Inr []"
    using assms by (simp add: extract_text_def)
  have 3: "?block = Inl e \<longrightarrow> extract_text L img = Inr []"
    using assms by (cases ?page) (simp_all add: extract_text_def)
  from detect_total [OF assms] obtain boxes where b: "detect_text_regions L img = Inr boxes" ..
  from extract_total [OF assms] obtain t where t: "extract_text L img = Inr t" ..
  have 6: "\<exists>r. process_ocr L contents = Inr r \<and>
               (?data = Inl e \<and> ?page = Inl e \<longrightarrow>
                  resp_text_boxes r = [] \<and> resp_total_boxes r = 0 \<and>
                  resp_average_confidence r = PyInt 0 \<and>
                  resp_text r = ustr ''Tidak dapat mendeteksi teks'')"
    if d: "cv2_imdecode L contents = Some img" for contents
  proof (cases "?data = Inl e \<and> ?page = Inl e")
    case True
    with 1 2 have "detect_text_regions L img = Inr []" and "extract_text L img = Inr []"
      by simp_all
    then show ?thesis
      by (simp add: process_ocr_def process_ocr_body_def d Let_def round_num_def
          draw_bounding_boxes_def)
  next
    case False
    then show ?thesis
      by (auto simp: process_ocr_def process_ocr_body_def d b t Let_def split: prod.splits)
  qed
  from 1 2 3 b t 6 show ?thesis by blast
qed

text \<open>With the engine failing at every call, the request for a white image still succeeds.\<close>

theorem engine_failure_is_absorbed_witness:
  "preprocess_image (stub_env engine_down engine_down engine_down) wide_white = Inr (blank 1 2000 255) \<and>
   detect_text_regions (stub_env engine_down engine_down engine_down) wide_white = Inr [] \<and>
   extract_text (stub_env engine_down engine_down engine_down) wide_white = Inr [] \<and>
   (\<exists>r. process_ocr (stub_env engine_down engine_down engine_down) wide_upload = Inr r \<and>
        resp_text_boxes r = [] \<and> resp_total_boxes r = 0 \<and>
        resp_average_confidence r = PyInt 0 \<and>
        resp_text r = ustr ''Tidak dapat mendeteksi teks'')"
proof -
  let ?e = "EngineError (ustr ''tesseract is not installed'')"
  have h: "preprocess_image (stub_env engine_down engine_down engine_down) wide_white = Inr (blank 1 2000 255)"
    by (rule stub_preprocess_white)
  have d: "cv2_imdecode (stub_env engine_down engine_down engine_down) wide_upload = Some wide_white"
    by (simp add: stub_decode_upload)
  from engine_failure_is_absorbed [OF h, of ?e] h d show ?thesis
    by (simp add: engine_down_def)
qed

subsection \<open>Annotation\<close>

text \<open>
  Claim C7. \<^verbatim>\<open>draw_bounding_boxes\<close> leaves the array it is given unchanged: it returns a new
  address, every array of the store before the call (the argument among them) holds the same
  pixels after it, and the returned array is the copy of the argument with all rectangles and
  labels drawn on it (what the drawing steps make of a store holding only that copy).
\<close>

theorem draw_bounding_boxes_keeps_original:
  assumes "img < length st"
  shows "case draw_bounding_boxes L st img boxes of
           (st', result_image) \<Rightarrow>
             result_image \<noteq> img \<and> result_image = length st \<and> length st' = Suc (length st) \<and>
             st' ! img = st ! img \<and> (\<forall>a < length st. st' ! a = st ! a) \<and>
             st' ! result_image = foldl (draw_box L 0) [st ! img] boxes ! 0"
proof -
  let ?st1 = "st @ [st ! img]"
  let ?r = "length st"
  have 1: "\<forall>a < length st. foldl (draw_box L ?r) ?st1 boxes ! a = st ! a"
    by (simp add: foldl_draw_box_other nth_append)
  have 2: "foldl (draw_box L ?r) ?st1 boxes ! ?r = foldl (draw_box L 0) [st ! img] boxes ! 0"
    using foldl_draw_box_local [of ?r ?st1 L boxes] by simp
  show ?thesis
    using assms 1 2 by (simp add: draw_bounding_boxes_def Let_def foldl_draw_box_length)
qed

text \<open>
  A box of confidence 95 on a white image: the copy at address 1 is painted green by the
  stand-in, the original at address 0 stays white.
\<close>

theorem draw_bounding_boxes_keeps_original_witness:
  "0 < length [blank 1 2 (255, 255, 255) :: color_image] \<and>
   draw_bounding_boxes (stub_env engine_down engine_down engine_down) [blank 1 2 (255, 255, 255)] 0 [word_box (ustr ''Hello'') 10 40 95] =
     ([blank 1 2 (255, 255, 255), blank 1 2 (0, 255, 0)], 1) \<and>
   (case draw_bounding_boxes (stub_env engine_down engine_down engine_down) [blank 1 2 (255, 255, 255)] 0
           [word_box (ustr ''Hello'') 10 40 95] of
      (st', result_image) \<Rightarrow>
        result_image \<noteq> 0 \<and> st' ! 0 = blank 1 2 (255, 255, 255) \<and>
        st' ! result_image = blank 1 2 (0, 255, 0))"
proof -
  let ?L = "stub_env engine_down engine_down engine_down"
  let ?st = "[blank 1 2 (255, 255, 255) :: color_image]"
  let ?boxes = "[word_box (ustr ''Hello'') 10 40 95]"
  have h: "0 < length ?st" by simp
  have e: "draw_bounding_boxes ?L ?st 0 ?boxes =
             ([blank 1 2 (255, 255, 255), blank 1 2 (0, 255, 0)], 1)"
    by (rule draw_eval)
  have c: "case draw_bounding_boxes ?L ?st 0 ?boxes of
             (st', result_image) \<Rightarrow>
               result_image \<noteq> 0 \<and> result_image = length ?st \<and>
               length st' = Suc (length ?st) \<and>
               st' ! 0 = ?st ! 0 \<and> (\<forall>a < length ?st. st' ! a = ?st ! a) \<and>
               st' ! result_image = foldl (draw_box ?L 0) [?st ! 0] ?boxes ! 0"
    by (rule draw_bounding_boxes_keeps_original [OF h])
  have "case draw_bounding_boxes ?L ?st 0 ?boxes of
          (st', result_image) \<Rightarrow>
            result_image \<noteq> 0 \<and> st' ! 0 = blank 1 2 (255, 255, 255) \<and>
            st' ! result_image = blank 1 2 (0, 255, 0)"
    using c unfolding e by simp
  with h e show ?thesis by (intro conjI)
qed




text \<open>
  The tuple of the tier between 50 and 70, commented as orange in the source, is written in
  the order red, green, blue: on the array the module draws on it is blue 255, green 165,
  red 0, which is not orange.
\<close>

lemma box_color_middle_tier_tuple:
  "box_color (word_box (ustr ''Hello'') 10 40 60) = (255, 165, 0) \<and>
   box_color (word_box (ustr ''Hello'') 10 40 60) \<noteq> orange"
  by (simp add: box_color_def word_box_def orange_def)

subsection \<open>The endpoint\<close>

text \<open>
  Claim C1 says that an upload the decoder rejects is answered with status 400 and the
  detail \<^verbatim>\<open>Invalid image file\<close>. The code raises that exception inside the \<^verbatim>\<open>try\<close> block,
  whose handler \<^verbatim>\<open>except Exception\<close> catches it and raises status 500 instead: for the
  five bytes of \<^verbatim>\<open>hello\<close>, which the decoder rejects, the endpoint answers with status 500
  and a detail that quotes the first exception.
\<close>

theorem process_ocr_undecodable_is_500:
  "cv2_imdecode (stub_env engine_down engine_down engine_down) not_an_image = None \<and>
   process_ocr (stub_env engine_down engine_down engine_down) not_an_image =
     Inl (HTTPException 500 (ustr ''Processing error: 400: Invalid image file'')) \<and>
   process_ocr (stub_env engine_down engine_down engine_down) not_an_image \<noteq> Inl (HTTPException 400 (ustr ''Invalid image file''))"
  by (simp add: undecodable_gives_500 not_an_image_def stub_imdecode_def stub_exn_str_def
      dec_digits ustr_def)

text \<open>
  Claim C6, as amended. In every success response the reported average confidence is 0 (the
  integer) when no box is returned, and otherwise \<^verbatim>\<open>round(m, 2)\<close> where \<^verbatim>\<open>m\<close> is the mean
  that numpy computes of the confidences of all returned boxes: the mean rounded to two
  decimal places, not the mean itself.
\<close>

theorem average_confidence_is_rounded_mean:
  assumes "process_ocr L contents = Inr r"
  shows "resp_average_confidence r =
           (if resp_text_boxes r = [] then PyInt 0
            else NpFloat (py_round L (np_mean L (map box_confidence (resp_text_boxes r))) 2))"
proof -
  from assms obtain img where img: "cv2_imdecode L contents = Some img"
    by (cases "cv2_imdecode L contents") (simp_all add: process_ocr_def process_ocr_body_def)
  from assms img obtain boxes where b: "detect_text_regions L img = Inr boxes"
    by (cases "detect_text_regions L img") (simp_all add: process_ocr_def process_ocr_body_def)
  from assms img b obtain t where t: "extract_text L img = Inr t"
    by (cases "extract_text L img") (simp_all add: process_ocr_def process_ocr_body_def)
  from assms show ?thesis
    by (auto simp: process_ocr_def process_ocr_body_def img b t Let_def round_num_def
        split: prod.splits)
qed

lemma sample_drawing:
  "draw_bounding_boxes (stub_env a b c) [wide_white] 0
     [word_box (ustr ''Hello'') 10 40 31, word_box (ustr ''OCR'') 60 30 32,
      word_box (ustr ''world'') 100 40 32] =
   ([wide_white, blank 1 2000 (0, 0, 255)], 1)"
  by (simp add: draw_bounding_boxes_def draw_box_def Let_def box_color_def word_box_def red_def
      stub_rectangle_def wide_white_def blank_def)

lemma sample_request:
  "process_ocr (stub_env (Inr three_words) (Inr (ustr ''  Hello world  '')) (Inr (ustr ''Hello'')))
     wide_upload = Inr sample_response"
  by (simp add: process_ocr_def process_ocr_body_def stub_decode_upload stub_detect_three
      stub_extract sample_drawing round_num_def sample_response_def)
    (simp add: word_box_def stub_mean_three)

text \<open>Three boxes of confidence 31, 32 and 32: the response reports the float 31.67.\<close>

theorem average_confidence_is_rounded_mean_witness:
  "process_ocr (stub_env (Inr three_words) (Inr (ustr ''  Hello world  '')) (Inr (ustr ''Hello'')))
     wide_upload = Inr sample_response \<and>
   resp_average_confidence sample_response = NpFloat (stub_round (stub_mean [31, 32, 32]) 2)"
proof -
  have h: "process_ocr
             (stub_env (Inr three_words) (Inr (ustr ''  Hello world  '')) (Inr (ustr ''Hello'')))
             wide_upload = Inr sample_response"
    by (rule sample_request)
  from average_confidence_is_rounded_mean [OF h] h show ?thesis
    by (simp add: sample_response_def word_box_def)
qed

text \<open>
  The claim C6 as stated fails on that request: the confidences of the returned boxes are
  31, 32 and 32, their mean is \<open>95 / 3\<close>, and the reported value, the float nearest to
  31.67, differs from it by more than 0.003.
\<close>

theorem average_confidence_counterexample:
  "process_ocr (stub_env (Inr three_words) (Inr (ustr ''  Hello world  '')) (Inr (ustr ''Hello'')))
     wide_upload = Inr sample_response \<and>
   map box_confidence (resp_text_boxes sample_response) = [31, 32, 32] \<and>
   sum_list [31, 32, 32 :: rat] / 3 = 95 / 3 \<and>
   resp_average_confidence sample_response = NpFloat (fl (3167 / 100)) \<and>
   resp_average_confidence sample_response \<noteq> NpFloat (95 / 3) \<and>
   3 / 1000 < \<bar>fl (3167 / 100) - 95 / 3\<bar>"
proof -
  have a: "3 / 1000 < \<bar>fl (3167 / 100) - 95 / 3\<bar>"
    by (rule stub_mean_three_differs)
  have b: "resp_average_confidence sample_response \<noteq> NpFloat (95 / 3)"
    using a by (auto simp: sample_response_def)
  have c: "process_ocr
             (stub_env (Inr three_words) (Inr (ustr ''  Hello world  '')) (Inr (ustr ''Hello'')))
             wide_upload = Inr sample_response"
    by (rule sample_request)
  have d: "map box_confidence (resp_text_boxes sample_response) = [31, 32, 32]"
    by (simp add: sample_response_def word_box_def)
  have e: "sum_list [31, 32, 32 :: rat] / 3 = 95 / 3" by simp
  have f: "resp_average_confidence sample_response = NpFloat (fl (3167 / 100))"
    by (simp add: sample_response_def)
  from c d e f b a show ?thesis by (intro conjI)
qed

end
